theory Spec2Isabelle
  imports Main "HOL-Library.Word"
begin

unbundle bit_operations_syntax

section \<open>The flow action of flogo-lib (flow/flowinst/action.go)\<close>

text \<open>
  The file embeds \<^verbatim>\<open>NewFlowAction\<close>, \<^verbatim>\<open>FlowAction.Run\<close>, the function literal that
  \<^verbatim>\<open>Run\<close> starts with \<^verbatim>\<open>go\<close>, and \<^verbatim>\<open>SimpleReplyHandler.Reply\<close>.

  Conventions.
  \<^item> A Go pointer or interface value that may be \<^verbatim>\<open>nil\<close> is an \<open>option\<close>; reading a
    field or calling a method through \<open>None\<close> is the panic \<open>NilDereference\<close>.
  \<^item> \<^verbatim>\<open>*ActionOptions\<close> is shared between the caller and the action, so the
    \<^verbatim>\<open>ActionOptions\<close> values live in an explicit store and pointers are addresses.
  \<^item> Go's \<^verbatim>\<open>int\<close> is \<open>int\<close>: the only arithmetic on it is \<^verbatim>\<open>stepCount++\<close> under the
    guard \<^verbatim>\<open>stepCount < MaxStepCount\<close>, which cannot overflow.
  \<^item> The calls made on the result handler, on the instance's \<^verbatim>\<open>DoStep\<close> and on the state
    recorder are collected in a trace, in the order in which the calls end.
  \<^item> Logging is left out, except that the arguments of a log call are evaluated.
\<close>

subsection \<open>Constants and option structs\<close>

definition AoStart :: int where
  "AoStart = 0"

definition AoResume :: int where
  "AoResume = 1"

definition AoRestart :: int where
  "AoRestart = 2"

record ActionOptions =
  MaxStepCount :: int
  Record :: bool

text \<open>The store of \<^verbatim>\<open>ActionOptions\<close> objects: \<open>cells\<close> maps an address to the object there,
  \<open>next_free\<close> is the first address no object has been allocated at.\<close>

record store =
  cells :: "nat \<Rightarrow> ActionOptions"
  next_free :: nat

text \<open>\<^verbatim>\<open>&ActionOptions{...}\<close>: a new object at a fresh address.\<close>

definition alloc :: "ActionOptions \<Rightarrow> store \<Rightarrow> nat \<times> store" where
  "alloc v st =
     (next_free st, st\<lparr>cells := (cells st)(next_free st := v), next_free := Suc (next_free st)\<rparr>)"

text \<open>\<^verbatim>\<open>FlowAction\<close>. The flow provider is the function \<^verbatim>\<open>GetFlow\<close> of the interface value;
  the state recorder is \<open>None\<close> for a \<^verbatim>\<open>nil\<close> interface value and otherwise the recorder
  (its state); \<open>options\<close> is the address of the \<^verbatim>\<open>ActionOptions\<close>.\<close>

record ('f, 'g, 'r) FlowAction =
  stateRecorder :: "'r option"
  flowProvider :: "string \<Rightarrow> 'f option"
  idGenerator :: 'g
  options :: nat

text \<open>\<^verbatim>\<open>NewFlowAction\<close> (lines 39 to 59). \<open>NewGenerator\<close> is the generator that
  \<^verbatim>\<open>util.NewGenerator()\<close> returns (util is not among the sources; the error it returns
  is discarded by the source).\<close>

definition NewFlowAction ::
  "'g \<Rightarrow> (string \<Rightarrow> 'f option) \<Rightarrow> 'r option \<Rightarrow> nat option \<Rightarrow> store
     \<Rightarrow> ('f, 'g, 'r) FlowAction \<times> store" where
  "NewFlowAction NewGenerator flowProvider' stateRecorder' options' st =
     (let (p, st1) = (case options' of
                        None \<Rightarrow> alloc \<lparr>MaxStepCount = 0, Record = True\<rparr> st
                      | Some q \<Rightarrow> (q, st));
          st2 = (if MaxStepCount (cells st1 p) < 1
                 then st1\<lparr>cells := (cells st1)
                        (p := (cells st1 p)\<lparr>MaxStepCount := uint (NOT (0 :: 16 word))\<rparr>)\<rparr>
                 else st1);
          st3 = st2\<lparr>cells := (cells st2)
                  (p := (cells st2 p)\<lparr>Record := (stateRecorder' \<noteq> None) \<and> Record (cells st2 p)\<rparr>)\<rparr>
      in (\<lparr>stateRecorder = stateRecorder', flowProvider = flowProvider',
           idGenerator = NewGenerator, options = p\<rparr>, st3))"

text \<open>\<^verbatim>\<open>RunOptions\<close> (lines 62 to 67). \<open>'i\<close> is the state of an \<^verbatim>\<open>Instance\<close>, \<open>'x\<close> the
  \<^verbatim>\<open>ExecOptions\<close> struct (neither is among the sources).\<close>

record ('i, 'x) RunOptions =
  Op :: int
  ReturnID :: bool
  InitialState :: "'i option"
  ExecOptions :: "'x option"

text \<open>The \<^verbatim>\<open>options interface{}\<close> argument of \<^verbatim>\<open>Run\<close>: either a \<^verbatim>\<open>*RunOptions\<close>, which may be
  a \<^verbatim>\<open>nil\<close> pointer, or anything else (the \<^verbatim>\<open>nil\<close> interface, a value of another type).\<close>

datatype ('i, 'x) options_arg =
  NotRunOptions
  | RunOptionsPtr "('i, 'x) RunOptions option"

text \<open>\<^verbatim>\<open>IDResponse\<close> (lines 186 to 188), and the \<^verbatim>\<open>interface{}\<close> values handed to the result
  handler: a \<^verbatim>\<open>*IDResponse\<close> or reply data \<open>'d\<close> of the flow.\<close>

record IDResponse =
  ID :: string

datatype 'd data =
  IDResponsePtr IDResponse
  | ReplyData 'd

subsection \<open>Errors and panics\<close>

datatype error =
  FlowNotFound string
  | ResumeOptionsNotProvided
  | RestartOptionsNotProvided

text \<open>The message of each error value (lines 89, 102 and 112).\<close>

fun Error :: "error \<Rightarrow> string" where
  "Error (FlowNotFound uri) = ''Flow ['' @ uri @ ''] not found''"
| "Error ResumeOptionsNotProvided = ''Unable to resume instance, resume options not provided''"
| "Error RestartOptionsNotProvided = ''Unable to restart instance, restart options not provided''"

datatype panic =
  NilDereference
  | DoStepPanic
  | RecorderPanic

text \<open>How the synchronous part of \<^verbatim>\<open>Run\<close> stops early: it returns an error, or it panics.\<close>

datatype stop =
  Err error
  | Panic panic

definition seq :: "'e + 'a \<Rightarrow> ('a \<Rightarrow> 'e + 'b) \<Rightarrow> 'e + 'b" where
  "seq m f = (case m of Inl e \<Rightarrow> Inl e | Inr v \<Rightarrow> f v)"

text \<open>Reading through a pointer.\<close>

definition deref :: "'a option \<Rightarrow> stop + 'a" where
  "deref p = (case p of None \<Rightarrow> Inl (Panic NilDereference) | Some v \<Rightarrow> Inr v)"

subsection \<open>The collaborators\<close>

text \<open>
  The code that \<^verbatim>\<open>Run\<close> calls and that is not among the sources is a parameter of the
  model: the id generator's \<^verbatim>\<open>NextAsString\<close>, \<^verbatim>\<open>NewFlowInstance\<close>, \<^verbatim>\<open>applyExecOptions\<close>,
  the constant \<^verbatim>\<open>StatusCompleted\<close>, the methods of \<^verbatim>\<open>Instance\<close> and the two methods of the
  state recorder. Methods that change their receiver return the new state. \<^verbatim>\<open>DoStep\<close>
  returns the replies it sends to the instance's reply handler while it runs, and
  \<open>Some (hasWork, instance)\<close> when it returns or \<open>None\<close> when it panics. A recorder
  method returns the recorder's new state, or \<open>None\<close> when it panics. Every method of
  \<^verbatim>\<open>Instance\<close> reads or writes the receiver's fields, so a call through a \<^verbatim>\<open>nil\<close> instance
  is a \<open>NilDereference\<close>.
\<close>

record ('i, 'f, 'g, 'r, 'x, 'a, 'd) env =
  NextAsString :: "'g \<Rightarrow> string \<times> 'g"
  NewFlowInstance :: "string \<Rightarrow> string \<Rightarrow> 'f \<Rightarrow> 'i"
  applyExecOptions :: "'x \<Rightarrow> 'i \<Rightarrow> 'i"
  StatusCompleted :: int
  InstanceID :: "'i \<Rightarrow> string"
  Status :: "'i \<Rightarrow> int"
  Restart :: "string \<Rightarrow> (string \<Rightarrow> 'f option) \<Rightarrow> 'i \<Rightarrow> 'i"
  Start :: "'a list \<Rightarrow> 'i \<Rightarrow> 'i"
  UpdateAttrs :: "'a list \<Rightarrow> 'i \<Rightarrow> 'i"
  SetReplyHandler :: "'i \<Rightarrow> 'i"
  DoStep :: "'i \<Rightarrow> (int \<times> 'd data \<times> string option) list \<times> (bool \<times> 'i) option"
  RecordSnapshot :: "'i \<Rightarrow> 'r \<Rightarrow> 'r option"
  RecordStep :: "'i \<Rightarrow> 'r \<Rightarrow> 'r option"

text \<open>Modelled from the spec: \<^verbatim>\<open>trigger.FromContext\<close> (core/trigger is not among the
  sources) "yields an ordered sequence of bindings associated with the current execution
  context, or indicates none are present". The context is the attributes it carries, if
  any; without any the slice is \<^verbatim>\<open>nil\<close>.\<close>

definition FromContext :: "'a list option \<Rightarrow> 'a list \<times> bool" where
  "FromContext ctx = (case ctx of None \<Rightarrow> ([], False) | Some attrs \<Rightarrow> (attrs, True))"

subsection \<open>The trace\<close>

datatype ('i, 'd) event =
  EvDoStep
  | EvRecordSnapshot 'i
  | EvRecordStep 'i
  | EvHandleResult int "'d data" "string option"
  | EvDone

text \<open>\<^verbatim>\<open>SimpleReplyHandler.Reply\<close> (lines 180 to 183) forwards to the result handler's
  \<^verbatim>\<open>HandleResult\<close>.\<close>

definition Reply :: "int \<times> 'd data \<times> string option \<Rightarrow> ('i, 'd) event" where
  "Reply r = (case r of (replyCode, replyData, err) \<Rightarrow> EvHandleResult replyCode replyData err)"

subsection \<open>Run: the synchronous part\<close>

text \<open>\<^verbatim>\<open>ao, ok := options.(*RunOptions)\<close> (line 76).\<close>

fun type_assert :: "('i, 'x) options_arg \<Rightarrow> ('i, 'x) RunOptions option \<times> bool" where
  "type_assert NotRunOptions = (None, False)"
| "type_assert (RunOptionsPtr p) = (p, True)"

text \<open>Lines 74 to 80: the operation.\<close>

definition select_op :: "('i, 'x) RunOptions option \<Rightarrow> bool \<Rightarrow> stop + int" where
  "select_op ao ok = (if ok then seq (deref ao) (\<lambda>opts. Inr (Op opts)) else Inr AoStart)"

text \<open>Lines 82 to 114: the \<^verbatim>\<open>switch\<close>. It yields the instance pointer, which stays \<^verbatim>\<open>nil\<close> when
  no case matches, and the action with the generator's new state. The argument
  \<^verbatim>\<open>instance.ID()\<close> of the log call on line 100 is evaluated.\<close>

definition acquire ::
  "('i, 'f, 'g, 'r, 'x, 'a, 'd) env \<Rightarrow> ('f, 'g, 'r) FlowAction \<Rightarrow> string \<Rightarrow> int
     \<Rightarrow> ('i, 'x) RunOptions option \<Rightarrow> bool \<Rightarrow> stop + ('i option \<times> ('f, 'g, 'r) FlowAction)" where
  "acquire e fa uri op ao ok =
     (if op = AoStart then
        (case flowProvider fa uri of
           None \<Rightarrow> Inl (Err (FlowNotFound uri))
         | Some flow \<Rightarrow>
             (case NextAsString e (idGenerator fa) of (instanceID, gen) \<Rightarrow>
                Inr (Some (NewFlowInstance e instanceID uri flow), fa\<lparr>idGenerator := gen\<rparr>)))
      else if op = AoResume then
        (if ok then
           seq (deref ao) (\<lambda>opts.
           seq (deref (InitialState opts)) (\<lambda>inst.
           Inr (Some inst, fa)))
         else Inl (Err ResumeOptionsNotProvided))
      else if op = AoRestart then
        (if ok then
           seq (deref ao) (\<lambda>opts.
           (case NextAsString e (idGenerator fa) of (instanceID, gen) \<Rightarrow>
              seq (deref (InitialState opts)) (\<lambda>inst.
              Inr (Some (Restart e instanceID (flowProvider fa) inst), fa\<lparr>idGenerator := gen\<rparr>))))
         else Inl (Err RestartOptionsNotProvided))
      else Inr (None, fa))"

text \<open>Lines 116 to 119: the exec options.\<close>

definition exec_options ::
  "('i, 'f, 'g, 'r, 'x, 'a, 'd) env \<Rightarrow> ('i, 'x) RunOptions option \<Rightarrow> bool \<Rightarrow> 'i option
     \<Rightarrow> stop + 'i option" where
  "exec_options e ao ok instance =
     (if ok then
        seq (deref ao) (\<lambda>opts.
        (case ExecOptions opts of
           None \<Rightarrow> Inr instance
         | Some x \<Rightarrow> seq (deref instance) (\<lambda>inst. Inr (Some (applyExecOptions e x inst)))))
      else Inr instance)"

text \<open>Lines 132 to 136: the trigger attributes.\<close>

definition apply_attrs ::
  "('i, 'f, 'g, 'r, 'x, 'a, 'd) env \<Rightarrow> int \<Rightarrow> 'a list \<Rightarrow> 'i option \<Rightarrow> stop + 'i" where
  "apply_attrs e op triggerAttrs instance =
     seq (deref instance) (\<lambda>inst.
     if op = AoStart then Inr (Start e triggerAttrs inst)
     else Inr (UpdateAttrs e triggerAttrs inst))"

text \<open>What the function literal of line 145 captures: the action, the options pointer
  \<^verbatim>\<open>ao\<close> and the instance. (\<^verbatim>\<open>stepCount\<close> and \<^verbatim>\<open>hasWork\<close> are 0 and true when it starts; the
  handler is the one the trace belongs to.)\<close>

record ('i, 'f, 'g, 'r, 'x) closure =
  c_fa :: "('f, 'g, 'r) FlowAction"
  c_ao :: "('i, 'x) RunOptions option"
  c_instance :: 'i

text \<open>What a call of \<^verbatim>\<open>Run\<close> does on the caller's path: it returns an error, it panics, or
  it starts the goroutine and returns \<^verbatim>\<open>nil\<close>. The generator's new state is part of the
  closure's action; an error is returned before the generator is used, and what a panic
  leaves behind is not modelled.\<close>

datatype ('i, 'f, 'g, 'r, 'x) run_result =
  ReturnErr error
  | Panicked panic
  | ReturnNil "('i, 'f, 'g, 'r, 'x) closure"

definition Run ::
  "('i, 'f, 'g, 'r, 'x, 'a, 'd) env \<Rightarrow> ('f, 'g, 'r) FlowAction \<Rightarrow> 'a list option \<Rightarrow> string
     \<Rightarrow> ('i, 'x) options_arg \<Rightarrow> ('i, 'f, 'g, 'r, 'x) run_result" where
  "Run e fa ctx uri opts =
     (case type_assert opts of (ao, ok) \<Rightarrow>
        (case
           seq (select_op ao ok) (\<lambda>op.
           seq (acquire e fa uri op ao ok) (\<lambda>(instance, fa1).
           seq (exec_options e ao ok instance) (\<lambda>instance1.
           (case FromContext ctx of (triggerAttrs, ok1) \<Rightarrow>
              seq (apply_attrs e op triggerAttrs instance1) (\<lambda>inst.
              Inr \<lparr>c_fa = fa1, c_ao = ao, c_instance = SetReplyHandler e inst\<rparr>)))))
         of
           Inl (Err err) \<Rightarrow> ReturnErr err
         | Inl (Panic p) \<Rightarrow> Panicked p
         | Inr c \<Rightarrow> ReturnNil c))"

subsection \<open>Run: the goroutine\<close>

text \<open>Lines 150 to 157, the body of the loop: one call of \<^verbatim>\<open>DoStep\<close>, whose replies reach
  the result handler through \<open>Reply\<close>, then the two recorder calls if recording is on.
  It yields the new \<^verbatim>\<open>hasWork\<close>, the instance and the recorder.\<close>

definition loop_body ::
  "('i, 'f, 'g, 'r, 'x, 'a, 'd) env \<Rightarrow> store \<Rightarrow> ('f, 'g, 'r) FlowAction \<Rightarrow> 'i \<Rightarrow> 'r option
     \<Rightarrow> ('i, 'd) event list \<times> (panic + bool \<times> 'i \<times> 'r option)" where
  "loop_body e st fa instance recorder =
     (case DoStep e instance of
        (replies, None) \<Rightarrow> (map Reply replies @ [EvDoStep], Inl DoStepPanic)
      | (replies, Some (hasWork, inst)) \<Rightarrow>
          if Record (cells st (options fa)) then
            (case recorder of
               None \<Rightarrow> (map Reply replies @ [EvDoStep], Inl NilDereference)
             | Some r \<Rightarrow>
                 (case RecordSnapshot e inst r of
                    None \<Rightarrow> (map Reply replies @ [EvDoStep, EvRecordSnapshot inst], Inl RecorderPanic)
                  | Some r1 \<Rightarrow>
                      (case RecordStep e inst r1 of
                         None \<Rightarrow>
                           (map Reply replies @ [EvDoStep, EvRecordSnapshot inst, EvRecordStep inst],
                            Inl RecorderPanic)
                       | Some r2 \<Rightarrow>
                           (map Reply replies @ [EvDoStep, EvRecordSnapshot inst, EvRecordStep inst],
                            Inr (hasWork, inst, Some r2)))))
          else (map Reply replies @ [EvDoStep], Inr (hasWork, inst, recorder)))"

text \<open>Lines 149 to 158, the loop. It yields the trace and either the panic that ended it
  or the instance and the recorder at its exit.\<close>

function step_loop ::
  "('i, 'f, 'g, 'r, 'x, 'a, 'd) env \<Rightarrow> store \<Rightarrow> ('f, 'g, 'r) FlowAction \<Rightarrow> bool \<Rightarrow> 'i \<Rightarrow> int
     \<Rightarrow> 'r option \<Rightarrow> ('i, 'd) event list \<times> (panic + 'i \<times> 'r option)" where
  "step_loop e st fa hasWork instance stepCount recorder =
     (if hasWork \<and> Status e instance < StatusCompleted e
         \<and> stepCount < MaxStepCount (cells st (options fa)) then
        (case loop_body e st fa instance recorder of
           (evs, Inl p) \<Rightarrow> (evs, Inl p)
         | (evs, Inr (hasWork1, inst, recorder1)) \<Rightarrow>
             (case step_loop e st fa hasWork1 inst (stepCount + 1) recorder1 of
                (evs1, r) \<Rightarrow> (evs @ evs1, r)))
      else ([], Inr (instance, recorder)))"
  by pat_completeness auto
termination
  by (relation "measure (\<lambda>(e, st, fa, hasWork, instance, stepCount, recorder).
        nat (MaxStepCount (cells st (options fa)) - stepCount))") auto

text \<open>Lines 149 to 168, the function literal without its deferred call: the loop, then
  the read of \<^verbatim>\<open>ao.ReturnID\<close> and the result that carries the instance's id. It yields the
  trace and the panic that ended it, if any.\<close>

definition task_body ::
  "('i, 'f, 'g, 'r, 'x, 'a, 'd) env \<Rightarrow> store \<Rightarrow> ('i, 'f, 'g, 'r, 'x) closure
     \<Rightarrow> ('i, 'd) event list \<times> panic option" where
  "task_body e st c =
     (case step_loop e st (c_fa c) True (c_instance c) 0 (stateRecorder (c_fa c)) of
        (evs, Inl p) \<Rightarrow> (evs, Some p)
      | (evs, Inr (inst, recorder)) \<Rightarrow>
          (case c_ao c of
             None \<Rightarrow> (evs, Some NilDereference)
           | Some opts \<Rightarrow>
               if ReturnID opts
               then (evs @ [EvHandleResult 200 (IDResponsePtr \<lparr>ID = InstanceID e inst\<rparr>) None], None)
               else (evs, None)))"

text \<open>Lines 145 to 169, the goroutine: \<^verbatim>\<open>defer handler.Done()\<close> runs when the function
  literal returns and also when it panics.\<close>

definition goroutine ::
  "('i, 'f, 'g, 'r, 'x, 'a, 'd) env \<Rightarrow> store \<Rightarrow> ('i, 'f, 'g, 'r, 'x) closure
     \<Rightarrow> ('i, 'd) event list \<times> panic option" where
  "goroutine e st c = (case task_body e st c of (evs, p) \<Rightarrow> (evs @ [EvDone], p))"

text \<open>Everything one call of \<^verbatim>\<open>Run\<close> makes happen on the handler, the instance's \<^verbatim>\<open>DoStep\<close>
  and the recorder: the synchronous part makes no such call, so it is the goroutine's
  trace when one is started.\<close>

definition invocation_trace ::
  "('i, 'f, 'g, 'r, 'x, 'a, 'd) env \<Rightarrow> store \<Rightarrow> ('f, 'g, 'r) FlowAction \<Rightarrow> 'a list option
     \<Rightarrow> string \<Rightarrow> ('i, 'x) options_arg \<Rightarrow> ('i, 'd) event list" where
  "invocation_trace e st fa ctx uri opts =
     (case Run e fa ctx uri opts of
        ReturnNil c \<Rightarrow> fst (goroutine e st c)
      | ReturnErr err \<Rightarrow> []
      | Panicked p \<Rightarrow> [])"

subsection \<open>Observations on a trace\<close>

fun is_recorder_call :: "('i, 'd) event \<Rightarrow> bool" where
  "is_recorder_call (EvRecordSnapshot i) = True"
| "is_recorder_call (EvRecordStep i) = True"
| "is_recorder_call ev = False"

text \<open>Every \<^verbatim>\<open>DoStep\<close> in the trace is followed at once by one \<^verbatim>\<open>RecordSnapshot\<close> and then
  one \<^verbatim>\<open>RecordStep\<close> of the same instance, and the trace has no other recorder call.\<close>

fun steps_recorded :: "('i, 'd) event list \<Rightarrow> bool" where
  "steps_recorded [] = True"
| "steps_recorded (EvDoStep # EvRecordSnapshot i # EvRecordStep j # evs) =
     (i = j \<and> steps_recorded evs)"
| "steps_recorded (EvDoStep # evs) = False"
| "steps_recorded (EvRecordSnapshot i # evs) = False"
| "steps_recorded (EvRecordStep i # evs) = False"
| "steps_recorded (EvHandleResult code d err # evs) = steps_recorded evs"
| "steps_recorded (EvDone # evs) = steps_recorded evs"

subsection \<open>A concrete flow engine\<close>

text \<open>
  The collaborators of the examples. A flow definition is the list of its steps, an
  instance is its id, the steps it still has to run and its attributes. A \<open>Work\<close> step
  returns, a \<open>Crash\<close> step panics; the instance is completed (status 500) when no step is
  left. The provider knows the three-step flow \<open>''order-flow''\<close> and the flow
  \<open>''bad-flow''\<close>, whose second step panics. The recorder counts its calls.
\<close>

datatype demo_step = Work | Crash

type_synonym demo_instance = "string \<times> demo_step list \<times> string list"

fun demo_DoStep ::
  "demo_instance \<Rightarrow> (int \<times> unit data \<times> string option) list \<times> (bool \<times> demo_instance) option" where
  "demo_DoStep (n, [], attrs) = ([], Some (False, (n, [], attrs)))"
| "demo_DoStep (n, Work # steps, attrs) =
     ([(100, ReplyData (), None)], Some (steps \<noteq> [], (n, steps, attrs)))"
| "demo_DoStep (n, Crash # steps, attrs) = ([], None)"

definition demo_provider :: "string \<Rightarrow> demo_step list option" where
  "demo_provider uri =
     (if uri = ''order-flow'' then Some [Work, Work, Work]
      else if uri = ''bad-flow'' then Some [Work, Crash]
      else None)"

definition demo_env :: "(demo_instance, demo_step list, nat, nat, unit, string, unit) env" where
  "demo_env =
     \<lparr>NextAsString = (\<lambda>g. (replicate (Suc g) CHR ''i'', Suc g)),
      NewFlowInstance = (\<lambda>n uri flow. (n, flow, [])),
      applyExecOptions = (\<lambda>x inst. inst),
      StatusCompleted = 500,
      InstanceID = (\<lambda>(n, steps, attrs). n),
      Status = (\<lambda>(n, steps, attrs). if steps = [] then 500 else 100),
      Restart = (\<lambda>n fp (old, steps, attrs). (n, steps, attrs)),
      Start = (\<lambda>attrs (n, steps, old). (n, steps, attrs)),
      UpdateAttrs = (\<lambda>attrs (n, steps, old). (n, steps, old @ attrs)),
      SetReplyHandler = (\<lambda>inst. inst),
      DoStep = demo_DoStep,
      RecordSnapshot = (\<lambda>inst r. Some (Suc r)),
      RecordStep = (\<lambda>inst r. Some (Suc r))\<rparr>"

text \<open>An action over the store \<open>demo_store n b\<close>, whose only object has
  \<^verbatim>\<open>MaxStepCount\<close> \<open>n\<close> and \<^verbatim>\<open>Record\<close> \<open>b\<close>; its recorder has seen no call.\<close>

definition demo_store :: "int \<Rightarrow> bool \<Rightarrow> store" where
  "demo_store n b = \<lparr>cells = (\<lambda>a. \<lparr>MaxStepCount = n, Record = b\<rparr>), next_free = 1\<rparr>"

definition demo_action :: "(demo_step list, nat, nat) FlowAction" where
  "demo_action =
     \<lparr>stateRecorder = Some 0, flowProvider = demo_provider, idGenerator = 0, options = 0\<rparr>"

section \<open>Properties\<close>

subsection \<open>The loop and its trace\<close>

lemma max_uint16 [simp]:
  "uint (NOT (0 :: 16 word)) = 65535"
  "uint (- 1 :: 16 word) = 65535"
  by (simp_all add: unsigned_minus_1_eq_mask mask_eq_exp_minus_1)

declare step_loop.simps [simp del]

lemma Reply_neq [simp]:
  "Reply r \<noteq> EvDoStep" "Reply r \<noteq> EvDone"
  "Reply r \<noteq> EvRecordSnapshot i" "Reply r \<noteq> EvRecordStep i"
  by (simp_all add: Reply_def split: prod.splits)

lemma replies_trace [simp]:
  "count_list (map Reply rs) EvDoStep = 0"
  "count_list (map Reply rs) EvDone = 0"
  "filter is_recorder_call (map Reply rs) = []"
  "steps_recorded (map Reply rs @ evs) = steps_recorded evs"
  by (induction rs) (simp_all add: Reply_def split: prod.splits)

lemma loop_body_DoStep: "count_list (fst (loop_body e st fa inst r)) EvDoStep = 1"
  by (simp add: loop_body_def split: prod.splits option.splits)

lemma loop_body_Done: "count_list (fst (loop_body e st fa inst r)) EvDone = 0"
  by (simp add: loop_body_def split: prod.splits option.splits)

lemma loop_body_unrecorded:
  "\<not> Record (cells st (options fa)) \<Longrightarrow> filter is_recorder_call (fst (loop_body e st fa inst r)) = []"
  by (simp add: loop_body_def split: prod.splits option.splits)

lemma loop_body_recorded:
  "Record (cells st (options fa)) \<Longrightarrow> loop_body e st fa inst r = (evs, Inr x)
   \<Longrightarrow> steps_recorded (evs @ evs1) = steps_recorded evs1"
  by (auto simp add: loop_body_def split: prod.splits option.splits)

lemma step_loop_exit:
  "\<not> (hasWork \<and> Status e inst < StatusCompleted e
        \<and> stepCount < MaxStepCount (cells st (options fa)))
   \<Longrightarrow> step_loop e st fa hasWork inst stepCount recorder = ([], Inr (inst, recorder))"
  by (subst step_loop.simps) (rule if_not_P)

lemma step_loop_panic:
  "hasWork \<and> Status e inst < StatusCompleted e
        \<and> stepCount < MaxStepCount (cells st (options fa))
   \<Longrightarrow> loop_body e st fa inst recorder = (evs, Inl p)
   \<Longrightarrow> step_loop e st fa hasWork inst stepCount recorder = (evs, Inl p)"
  by (subst step_loop.simps) simp

lemma step_loop_iterate:
  "hasWork \<and> Status e inst < StatusCompleted e
        \<and> stepCount < MaxStepCount (cells st (options fa))
   \<Longrightarrow> loop_body e st fa inst recorder = (evs, Inr (hasWork1, inst1, recorder1))
   \<Longrightarrow> step_loop e st fa hasWork inst stepCount recorder =
         (evs @ fst (step_loop e st fa hasWork1 inst1 (stepCount + 1) recorder1),
          snd (step_loop e st fa hasWork1 inst1 (stepCount + 1) recorder1))"
  by (subst step_loop.simps) (simp split: prod.splits)

lemma step_loop_cases [case_names exit panic iterate]:
  assumes ex: "\<And>hasWork inst stepCount recorder.
      \<not> (hasWork \<and> Status e inst < StatusCompleted e
          \<and> stepCount < MaxStepCount (cells st (options fa)))
      \<Longrightarrow> P hasWork inst stepCount recorder ([], Inr (inst, recorder))"
    and pa: "\<And>hasWork inst stepCount recorder evs p.
      stepCount < MaxStepCount (cells st (options fa))
      \<Longrightarrow> loop_body e st fa inst recorder = (evs, Inl p)
      \<Longrightarrow> P hasWork inst stepCount recorder (evs, Inl p)"
    and it: "\<And>hasWork inst stepCount recorder evs hasWork1 inst1 recorder1.
      stepCount < MaxStepCount (cells st (options fa))
      \<Longrightarrow> loop_body e st fa inst recorder = (evs, Inr (hasWork1, inst1, recorder1))
      \<Longrightarrow> P hasWork1 inst1 (stepCount + 1) recorder1
            (step_loop e st fa hasWork1 inst1 (stepCount + 1) recorder1)
      \<Longrightarrow> P hasWork inst stepCount recorder
            (evs @ fst (step_loop e st fa hasWork1 inst1 (stepCount + 1) recorder1),
             snd (step_loop e st fa hasWork1 inst1 (stepCount + 1) recorder1))"
  shows "P hasWork inst stepCount recorder (step_loop e st fa hasWork inst stepCount recorder)"
proof (induction "nat (MaxStepCount (cells st (options fa)) - stepCount)"
    arbitrary: hasWork inst stepCount recorder rule: less_induct)
  case less
  show ?case
  proof (cases "hasWork \<and> Status e inst < StatusCompleted e
         \<and> stepCount < MaxStepCount (cells st (options fa))")
    case False
    have "step_loop e st fa hasWork inst stepCount recorder = ([], Inr (inst, recorder))"
      using False by (rule step_loop_exit)
    then show ?thesis
      using ex [OF False] by simp
  next
    case True
    obtain evs res where lb: "loop_body e st fa inst recorder = (evs, res)"
      by (cases "loop_body e st fa inst recorder")
    show ?thesis
    proof (cases res)
      case (Inl p)
      have "step_loop e st fa hasWork inst stepCount recorder = (evs, Inl p)"
        using True lb Inl by (simp add: step_loop_panic)
      moreover have "P hasWork inst stepCount recorder (evs, Inl p)"
        using True lb Inl by (intro pa) simp_all
      ultimately show ?thesis by simp
    next
      case (Inr x)
      obtain hw1 inst1 rec1 where x: "x = (hw1, inst1, rec1)"
        by (cases x)
      have small: "nat (MaxStepCount (cells st (options fa)) - (stepCount + 1))
                     < nat (MaxStepCount (cells st (options fa)) - stepCount)"
        using True by simp
      have unfold: "step_loop e st fa hasWork inst stepCount recorder =
          (evs @ fst (step_loop e st fa hw1 inst1 (stepCount + 1) rec1),
           snd (step_loop e st fa hw1 inst1 (stepCount + 1) rec1))"
        using True lb Inr x by (simp add: step_loop_iterate)
      have "P hw1 inst1 (stepCount + 1) rec1 (step_loop e st fa hw1 inst1 (stepCount + 1) rec1)"
        by (rule less [OF small])
      then have "P hasWork inst stepCount recorder
          (evs @ fst (step_loop e st fa hw1 inst1 (stepCount + 1) rec1),
           snd (step_loop e st fa hw1 inst1 (stepCount + 1) rec1))"
        using True lb Inr x by (intro it) simp_all
      then show ?thesis
        by (simp only: unfold)
    qed
  qed
qed

lemma step_loop_DoStep:
  "count_list (fst (step_loop e st fa hasWork inst stepCount recorder)) EvDoStep
     \<le> nat (MaxStepCount (cells st (options fa)) - stepCount)"
proof (induction hasWork inst stepCount recorder rule: step_loop_cases)
  case (exit hasWork inst stepCount recorder)
  then show ?case by simp
next
  case (panic hasWork inst stepCount recorder evs p)
  then show ?case
    using loop_body_DoStep [of e st fa inst recorder] by simp
next
  case (iterate hasWork inst stepCount recorder evs hasWork1 inst1 recorder1)
  then show ?case
    using loop_body_DoStep [of e st fa inst recorder] by simp
qed


lemma step_loop_Done:
  "count_list (fst (step_loop e st fa hasWork inst stepCount recorder)) EvDone = 0"
proof (induction hasWork inst stepCount recorder rule: step_loop_cases)
  case (exit hasWork inst stepCount recorder)
  then show ?case by simp
next
  case (panic hasWork inst stepCount recorder evs p)
  then show ?case
    using loop_body_Done [of e st fa inst recorder] by simp
next
  case (iterate hasWork inst stepCount recorder evs hasWork1 inst1 recorder1)
  then show ?case
    using loop_body_Done [of e st fa inst recorder] by simp
qed

lemma step_loop_unrecorded:
  assumes "\<not> Record (cells st (options fa))"
  shows "filter is_recorder_call (fst (step_loop e st fa hasWork inst stepCount recorder)) = []"
proof (induction hasWork inst stepCount recorder rule: step_loop_cases)
  case (exit hasWork inst stepCount recorder)
  then show ?case by simp
next
  case (panic hasWork inst stepCount recorder evs p)
  then show ?case
    using loop_body_unrecorded [OF assms, of e inst recorder] by simp
next
  case (iterate hasWork inst stepCount recorder evs hasWork1 inst1 recorder1)
  then show ?case
    using loop_body_unrecorded [OF assms, of e inst recorder] by simp
qed

lemma step_loop_recorded:
  assumes "Record (cells st (options fa))"
  shows "snd (step_loop e st fa hasWork inst stepCount recorder) = Inr x
    \<Longrightarrow> steps_recorded (fst (step_loop e st fa hasWork inst stepCount recorder))"
proof (induction hasWork inst stepCount recorder rule: step_loop_cases)
  case (exit hasWork inst stepCount recorder)
  then show ?case by simp
next
  case (panic hasWork inst stepCount recorder evs p)
  then show ?case by simp
next
  case (iterate hasWork inst stepCount recorder evs hasWork1 inst1 recorder1)
  then show ?case
    using loop_body_recorded [OF assms, of e inst recorder evs] by simp
qed

lemma loop_body_panic_recorded:
  assumes "Record (cells st (options fa))" and "loop_body e st fa inst r = (evs, Inl p)"
  shows "\<exists>suffix. steps_recorded (evs @ suffix)"
proof -
  obtain replies res where step: "DoStep e inst = (replies, res)"
    by (cases "DoStep e inst")
  from assms step consider
      "evs = map Reply replies @ [EvDoStep]"
    | i where "evs = map Reply replies @ [EvDoStep, EvRecordSnapshot i]"
    | i where "evs = map Reply replies @ [EvDoStep, EvRecordSnapshot i, EvRecordStep i]"
    by (auto simp add: loop_body_def split: option.splits prod.splits)
  then show ?thesis
  proof cases
    case 1
    then have "steps_recorded (evs @ [EvRecordSnapshot inst, EvRecordStep inst])" by simp
    then show ?thesis ..
  next
    case 2
    then have "steps_recorded (evs @ [EvRecordStep i])" by simp
    then show ?thesis ..
  next
    case 3
    then have "steps_recorded (evs @ [])" by simp
    then show ?thesis ..
  qed
qed

lemma step_loop_recorded_prefix:
  assumes "Record (cells st (options fa))"
  shows "\<exists>suffix. steps_recorded (fst (step_loop e st fa hasWork inst stepCount recorder) @ suffix)"
proof (induction hasWork inst stepCount recorder rule: step_loop_cases)
  case (exit hasWork inst stepCount recorder)
  show ?case
    by (intro exI [of _ "[]"]) simp
next
  case (panic hasWork inst stepCount recorder evs p)
  then show ?case
    using loop_body_panic_recorded [OF assms] by simp
next
  case (iterate hasWork inst stepCount recorder evs hasWork1 inst1 recorder1)
  then show ?case
    using loop_body_recorded [OF assms, of e inst recorder evs] by simp
qed

subsection \<open>Run on the caller's path\<close>

lemma acquire_action:
  assumes "acquire e fa uri opn ao ok = Inr (i, fa1)"
  shows "options fa1 = options fa" and "stateRecorder fa1 = stateRecorder fa"
  using assms
  by (auto simp add: acquire_def seq_def deref_def split: prod.splits option.splits if_splits)

lemma Run_ReturnNil:
  assumes "Run e fa ctx uri opts = ReturnNil c"
  obtains opn i fa1 i1 inst where
    "select_op (fst (type_assert opts)) (snd (type_assert opts)) = Inr opn"
    "acquire e fa uri opn (fst (type_assert opts)) (snd (type_assert opts)) = Inr (i, fa1)"
    "exec_options e (fst (type_assert opts)) (snd (type_assert opts)) i = Inr i1"
    "apply_attrs e opn (fst (FromContext ctx)) i1 = Inr inst"
    "c = \<lparr>c_fa = fa1, c_ao = fst (type_assert opts), c_instance = SetReplyHandler e inst\<rparr>"
  using assms
  by (auto simp add: Run_def seq_def split: prod.splits sum.splits stop.splits)

lemma Run_closure:
  assumes "Run e fa ctx uri opts = ReturnNil c"
  shows "options (c_fa c) = options fa" and "stateRecorder (c_fa c) = stateRecorder fa"
    and "c_ao c = fst (type_assert opts)"
  using assms acquire_action by (auto elim!: Run_ReturnNil)

text \<open>The definitions that evaluate the examples.\<close>

lemmas demo_simps =
  demo_env_def demo_action_def demo_provider_def demo_store_def
  Run_def select_op_def acquire_def exec_options_def apply_attrs_def seq_def deref_def
  FromContext_def AoStart_def AoResume_def AoRestart_def
  invocation_trace_def goroutine_def task_body_def loop_body_def Reply_def

lemma goroutine_trace:
  obtains post where
    "fst (goroutine e st c) =
       fst (step_loop e st (c_fa c) True (c_instance c) 0 (stateRecorder (c_fa c))) @ post @ [EvDone]"
    "post = [] \<or> (\<exists>i. post = [EvHandleResult 200 (IDResponsePtr \<lparr>ID = i\<rparr>) None])"
proof -
  obtain evs res where
    loop: "step_loop e st (c_fa c) True (c_instance c) 0 (stateRecorder (c_fa c)) = (evs, res)"
    by (cases "step_loop e st (c_fa c) True (c_instance c) 0 (stateRecorder (c_fa c))")
  show thesis
  proof (cases res)
    case (Inl p)
    with loop have "fst (goroutine e st c) = evs @ [] @ [EvDone]"
      by (simp add: goroutine_def task_body_def)
    with loop that show thesis by simp
  next
    case (Inr x)
    with loop have
      "fst (goroutine e st c) = evs @ [] @ [EvDone]
       \<or> fst (goroutine e st c) =
           evs @ [EvHandleResult 200 (IDResponsePtr \<lparr>ID = InstanceID e (fst x)\<rparr>) None] @ [EvDone]"
      by (cases x) (simp add: goroutine_def task_body_def split: option.splits)
    with loop that show thesis by fastforce
  qed
qed

lemma Run_NotRunOptions:
  "Run e fa ctx uri NotRunOptions =
     (case flowProvider fa uri of
        None \<Rightarrow> ReturnErr (FlowNotFound uri)
      | Some flow \<Rightarrow>
          ReturnNil \<lparr>c_fa = fa\<lparr>idGenerator := snd (NextAsString e (idGenerator fa))\<rparr>, c_ao = None,
            c_instance = SetReplyHandler e (Start e (fst (FromContext ctx))
              (NewFlowInstance e (fst (NextAsString e (idGenerator fa))) uri flow))\<rparr>)"
  by (simp add: Run_def select_op_def acquire_def exec_options_def apply_attrs_def seq_def
      deref_def split: prod.splits option.splits)

lemma Run_Start:
  "Op ro = AoStart \<Longrightarrow>
   Run e fa ctx uri (RunOptionsPtr (Some ro)) =
     (case flowProvider fa uri of
        None \<Rightarrow> ReturnErr (FlowNotFound uri)
      | Some flow \<Rightarrow>
          ReturnNil \<lparr>c_fa = fa\<lparr>idGenerator := snd (NextAsString e (idGenerator fa))\<rparr>,
            c_ao = Some ro,
            c_instance = SetReplyHandler e (Start e (fst (FromContext ctx))
              (case ExecOptions ro of
                 None \<Rightarrow> NewFlowInstance e (fst (NextAsString e (idGenerator fa))) uri flow
               | Some x \<Rightarrow> applyExecOptions e x
                   (NewFlowInstance e (fst (NextAsString e (idGenerator fa))) uri flow)))\<rparr>)"
  by (simp add: Run_def select_op_def acquire_def exec_options_def apply_attrs_def seq_def
      deref_def split: prod.splits option.splits)

lemma Run_Resume:
  "Op ro = AoResume \<Longrightarrow>
   Run e fa ctx uri (RunOptionsPtr (Some ro)) =
     (case InitialState ro of
        None \<Rightarrow> Panicked NilDereference
      | Some inst \<Rightarrow>
          ReturnNil \<lparr>c_fa = fa, c_ao = Some ro,
            c_instance = SetReplyHandler e (UpdateAttrs e (fst (FromContext ctx))
              (case ExecOptions ro of
                 None \<Rightarrow> inst
               | Some x \<Rightarrow> applyExecOptions e x inst))\<rparr>)"
  by (simp add: Run_def select_op_def acquire_def exec_options_def apply_attrs_def seq_def
      deref_def AoStart_def AoResume_def split: prod.splits option.splits)

lemma Run_Restart:
  "Op ro = AoRestart \<Longrightarrow>
   Run e fa ctx uri (RunOptionsPtr (Some ro)) =
     (case InitialState ro of
        None \<Rightarrow> Panicked NilDereference
      | Some inst \<Rightarrow>
          ReturnNil \<lparr>c_fa = fa\<lparr>idGenerator := snd (NextAsString e (idGenerator fa))\<rparr>,
            c_ao = Some ro,
            c_instance = SetReplyHandler e (UpdateAttrs e (fst (FromContext ctx))
              (case ExecOptions ro of
                 None \<Rightarrow> Restart e (fst (NextAsString e (idGenerator fa))) (flowProvider fa) inst
               | Some x \<Rightarrow> applyExecOptions e x
                   (Restart e (fst (NextAsString e (idGenerator fa))) (flowProvider fa) inst)))\<rparr>)"
  by (simp add: Run_def select_op_def acquire_def exec_options_def apply_attrs_def seq_def
      deref_def AoStart_def AoResume_def AoRestart_def split: prod.splits option.splits)

lemma Run_other:
  "Op ro \<noteq> AoStart \<Longrightarrow> Op ro \<noteq> AoResume \<Longrightarrow> Op ro \<noteq> AoRestart \<Longrightarrow>
   Run e fa ctx uri (RunOptionsPtr (Some ro)) = Panicked NilDereference"
  by (simp add: Run_def select_op_def acquire_def exec_options_def apply_attrs_def seq_def
      deref_def split: prod.splits option.splits)

lemma Run_nil_pointer:
  "Run e fa ctx uri (RunOptionsPtr None) = Panicked NilDereference"
  by (simp add: Run_def select_op_def seq_def deref_def)

lemma Run_never_missing_state:
  "Run e fa ctx uri opts \<noteq> ReturnErr ResumeOptionsNotProvided"
  "Run e fa ctx uri opts \<noteq> ReturnErr RestartOptionsNotProvided"
proof -
  have "Run e fa ctx uri opts \<noteq> ReturnErr ResumeOptionsNotProvided
      \<and> Run e fa ctx uri opts \<noteq> ReturnErr RestartOptionsNotProvided"
  proof (cases opts)
    case NotRunOptions
    then show ?thesis by (simp add: Run_NotRunOptions split: option.splits)
  next
    case (RunOptionsPtr p)
    show ?thesis
    proof (cases p)
      case None
      with RunOptionsPtr show ?thesis by (simp add: Run_nil_pointer)
    next
      case (Some ro)
      consider "Op ro = AoStart" | "Op ro = AoResume" | "Op ro = AoRestart"
        | "Op ro \<noteq> AoStart" "Op ro \<noteq> AoResume" "Op ro \<noteq> AoRestart"
        by blast
      then show ?thesis
      proof cases
        case 1
        with RunOptionsPtr Some show ?thesis by (simp add: Run_Start split: option.splits)
      next
        case 2
        with RunOptionsPtr Some show ?thesis by (simp add: Run_Resume split: option.splits)
      next
        case 3
        with RunOptionsPtr Some show ?thesis by (simp add: Run_Restart split: option.splits)
      next
        case 4
        with RunOptionsPtr Some show ?thesis by (simp add: Run_other)
      qed
    qed
  qed
  then show "Run e fa ctx uri opts \<noteq> ReturnErr ResumeOptionsNotProvided"
    and "Run e fa ctx uri opts \<noteq> ReturnErr RestartOptionsNotProvided"
    by simp_all
qed

subsection \<open>The claims\<close>

text \<open>
  C1. For an action whose effective \<^verbatim>\<open>MaxStepCount\<close> is \<open>N > 0\<close>, one invocation of \<^verbatim>\<open>Run\<close>
  calls \<^verbatim>\<open>DoStep\<close> at most \<open>N\<close> times, whatever the instance does (an invocation that starts
  no goroutine calls it never). The loop runs no iteration unless the previous step
  reported work, the status is below \<^verbatim>\<open>StatusCompleted\<close> and the steps taken are below \<open>N\<close>.
\<close>

theorem step_budget_bound:
  assumes "MaxStepCount (cells st (options fa)) = N" and "0 < N"
  shows "count_list (invocation_trace e st fa ctx uri opts) EvDoStep \<le> nat N
    \<and> (\<not> (hasWork \<and> Status e inst < StatusCompleted e \<and> stepCount < N)
         \<longrightarrow> fst (step_loop e st fa hasWork inst stepCount recorder) = [])"
proof (cases "Run e fa ctx uri opts")
  case (ReturnNil c)
  have "count_list (fst (step_loop e st (c_fa c) True (c_instance c) 0 (stateRecorder (c_fa c))))
          EvDoStep \<le> nat (MaxStepCount (cells st (options (c_fa c))) - 0)"
    by (rule step_loop_DoStep)
  moreover obtain post where
    "fst (goroutine e st c) =
       fst (step_loop e st (c_fa c) True (c_instance c) 0 (stateRecorder (c_fa c))) @ post @ [EvDone]"
    "post = [] \<or> (\<exists>i. post = [EvHandleResult 200 (IDResponsePtr \<lparr>ID = i\<rparr>) None])"
    by (rule goroutine_trace)
  ultimately have "count_list (fst (goroutine e st c)) EvDoStep \<le> nat N"
    using assms Run_closure(1) [OF ReturnNil] by auto
  then show ?thesis
    using ReturnNil assms by (simp add: invocation_trace_def step_loop_exit)
qed (use assms in \<open>simp_all add: invocation_trace_def step_loop_exit\<close>)

theorem step_budget_bound_witness:
  "MaxStepCount (cells (demo_store 2 True) (options demo_action)) = 2 \<and> (0::int) < 2
   \<and> count_list (invocation_trace demo_env (demo_store 2 True) demo_action None ''order-flow''
        NotRunOptions) EvDoStep = 2"
proof -
  have "count_list (invocation_trace demo_env (demo_store 2 True) demo_action None ''order-flow''
        (NotRunOptions :: (demo_instance, unit) options_arg)) EvDoStep \<le> nat 2"
    using step_budget_bound [where st = "demo_store 2 True" and fa = demo_action and N = 2
        and e = demo_env and ctx = None and uri = "''order-flow''" and opts = NotRunOptions]
    by (simp add: demo_store_def demo_action_def)
  moreover have "2 \<le> count_list (invocation_trace demo_env (demo_store 2 True) demo_action None
        ''order-flow'' (NotRunOptions :: (demo_instance, unit) options_arg)) EvDoStep"
    by (simp add: demo_simps step_loop.simps)
  ultimately show ?thesis
    by (simp add: demo_store_def demo_action_def)
qed

text \<open>
  C2. When \<^verbatim>\<open>Run\<close> starts the goroutine, \<^verbatim>\<open>Done\<close> is called exactly once and it is the last
  call of the invocation, after the loop: this holds on every path of the goroutine, also
  when \<^verbatim>\<open>DoStep\<close>, a recorder call or the read of \<^verbatim>\<open>ao.ReturnID\<close> panics, because the call is
  deferred. (The example's second step panics.)
\<close>

theorem done_exactly_once:
  assumes "Run e fa ctx uri opts = ReturnNil c"
  shows "count_list (invocation_trace e st fa ctx uri opts) EvDone = 1
    \<and> last (invocation_trace e st fa ctx uri opts) = EvDone"
proof -
  obtain post where
    "fst (goroutine e st c) =
       fst (step_loop e st (c_fa c) True (c_instance c) 0 (stateRecorder (c_fa c))) @ post @ [EvDone]"
    "post = [] \<or> (\<exists>i. post = [EvHandleResult 200 (IDResponsePtr \<lparr>ID = i\<rparr>) None])"
    by (rule goroutine_trace)
  moreover have
    "count_list (fst (step_loop e st (c_fa c) True (c_instance c) 0 (stateRecorder (c_fa c))))
       EvDone = 0"
    by (rule step_loop_Done)
  ultimately have "count_list (fst (goroutine e st c)) EvDone = 1
      \<and> last (fst (goroutine e st c)) = EvDone"
    by auto
  then show ?thesis
    using assms by (simp add: invocation_trace_def)
qed

theorem done_exactly_once_witness:
  "Run demo_env demo_action None ''bad-flow'' NotRunOptions =
     ReturnNil \<lparr>c_fa = demo_action\<lparr>idGenerator := 1\<rparr>, c_ao = None,
                c_instance = (''i'', [Work, Crash], [])\<rparr>
   \<and> snd (goroutine demo_env (demo_store 10 True)
        \<lparr>c_fa = demo_action\<lparr>idGenerator := 1\<rparr>, c_ao = None,
         c_instance = (''i'', [Work, Crash], [])\<rparr>) = Some DoStepPanic
   \<and> count_list (invocation_trace demo_env (demo_store 10 True) demo_action None ''bad-flow''
        NotRunOptions) EvDone = 1
   \<and> last (invocation_trace demo_env (demo_store 10 True) demo_action None ''bad-flow''
        NotRunOptions) = EvDone"
proof -
  have run: "Run demo_env demo_action None ''bad-flow''
      (NotRunOptions :: (demo_instance, unit) options_arg) =
     ReturnNil \<lparr>c_fa = demo_action\<lparr>idGenerator := 1\<rparr>, c_ao = None,
                c_instance = (''i'', [Work, Crash], [])\<rparr>"
    by (simp add: demo_simps)
  have "snd (goroutine demo_env (demo_store 10 True)
        \<lparr>c_fa = demo_action\<lparr>idGenerator := 1\<rparr>, c_ao = (None :: (demo_instance, unit) RunOptions option),
         c_instance = (''i'', [Work, Crash], [])\<rparr>) = Some DoStepPanic"
    by (simp add: demo_simps step_loop.simps)
  with run done_exactly_once [OF run, of "demo_store 10 True"] show ?thesis
    by simp
qed

text \<open>
  C3. The claim: \<^verbatim>\<open>Run\<close> with \<^verbatim>\<open>Op\<close> \<^verbatim>\<open>AoResume\<close> or \<^verbatim>\<open>AoRestart\<close> and no \<^verbatim>\<open>InitialState\<close> returns the
  missing-state error. The code does not: with \<^verbatim>\<open>InitialState\<close> \<^verbatim>\<open>nil\<close> it calls a method on the
  \<^verbatim>\<open>nil\<close> instance (lines 100 and 108) and panics on the caller's path, and no call of \<^verbatim>\<open>Run\<close>
  whatsoever returns either of the two errors of lines 102 and 112, since \<^verbatim>\<open>op\<close> is
  \<^verbatim>\<open>AoResume\<close> or \<^verbatim>\<open>AoRestart\<close> only when \<^verbatim>\<open>ok\<close> holds.
\<close>

theorem missing_state_not_reported:
  "Run e fa ctx uri (RunOptionsPtr (Some
      \<lparr>Op = AoResume, ReturnID = rid, InitialState = None, ExecOptions = x\<rparr>))
     = Panicked NilDereference
   \<and> Run e fa ctx uri (RunOptionsPtr (Some
      \<lparr>Op = AoRestart, ReturnID = rid, InitialState = None, ExecOptions = x\<rparr>))
     = Panicked NilDereference
   \<and> Run e fa ctx uri opts \<noteq> ReturnErr ResumeOptionsNotProvided
   \<and> Run e fa ctx uri opts \<noteq> ReturnErr RestartOptionsNotProvided"
  by (simp add: Run_Resume Run_Restart Run_never_missing_state)

text \<open>
  C4. When the operation is \<^verbatim>\<open>AoStart\<close> (no run options, or run options with \<^verbatim>\<open>Op\<close> 0) and the
  flow provider has no flow for the URI, \<^verbatim>\<open>Run\<close> returns the error \<^verbatim>\<open>Flow [<uri>] not found\<close>,
  starts no goroutine, and the invocation makes no call on the result handler (neither
  \<^verbatim>\<open>HandleResult\<close> nor \<^verbatim>\<open>Done\<close>).
\<close>

theorem flow_not_found:
  assumes "flowProvider fa uri = None"
    and "opts = NotRunOptions \<or> (\<exists>ro. opts = RunOptionsPtr (Some ro) \<and> Op ro = AoStart)"
  shows "Run e fa ctx uri opts = ReturnErr (FlowNotFound uri)
    \<and> Error (FlowNotFound uri) = ''Flow ['' @ uri @ ''] not found''
    \<and> invocation_trace e st fa ctx uri opts = []"
  using assms by (auto simp add: Run_NotRunOptions Run_Start invocation_trace_def)


theorem flow_not_found_witness:
  "flowProvider demo_action ''no-flow'' = None
   \<and> Run demo_env demo_action (Some [''k'']) ''no-flow''
       (RunOptionsPtr (Some \<lparr>Op = AoStart, ReturnID = True, InitialState = None, ExecOptions = None\<rparr>))
       = ReturnErr (FlowNotFound ''no-flow'')
   \<and> Error (FlowNotFound ''no-flow'') = ''Flow [no-flow] not found''
   \<and> invocation_trace demo_env (demo_store 10 True) demo_action (Some [''k'']) ''no-flow''
       (RunOptionsPtr (Some \<lparr>Op = AoStart, ReturnID = True, InitialState = None, ExecOptions = None\<rparr>))
       = []"
proof -
  have none: "flowProvider demo_action ''no-flow'' = None"
    by (simp add: demo_action_def demo_provider_def)
  show ?thesis
    using none flow_not_found [OF none, where e = demo_env and ctx = "Some [''k'']"
        and st = "demo_store 10 True"
        and opts = "RunOptionsPtr (Some \<lparr>Op = AoStart, ReturnID = True, InitialState = None,
                      ExecOptions = None\<rparr>)"]
    by simp
qed

text \<open>
  C5. Recording is effective, after construction, exactly when it was requested (the
  options allocated for \<^verbatim>\<open>nil\<close> request it) and a recorder was supplied. In a loop that runs
  with recording effective and exits without a panic, every \<^verbatim>\<open>DoStep\<close> is followed at once
  by one \<^verbatim>\<open>RecordSnapshot\<close> and then one \<^verbatim>\<open>RecordStep\<close>, and there is no other recorder call;
  when a panic ends the loop its trace is still the beginning of such a trace. In a loop
  that runs with recording not effective there is no recorder call at all.
\<close>

theorem conditional_checkpointing:
  "(Record (cells (snd (NewFlowAction gen fp rec opts st0))
       (options (fst (NewFlowAction gen fp rec opts st0))))
     \<longleftrightarrow> rec \<noteq> None \<and> (case opts of None \<Rightarrow> True | Some p \<Rightarrow> Record (cells st0 p)))
   \<and> (Record (cells st (options fa))
        \<longrightarrow> snd (step_loop e st fa hasWork inst stepCount recorder) = Inr x
        \<longrightarrow> steps_recorded (fst (step_loop e st fa hasWork inst stepCount recorder)))
   \<and> (Record (cells st (options fa))
        \<longrightarrow> (\<exists>suffix. steps_recorded
              (fst (step_loop e st fa hasWork inst stepCount recorder) @ suffix)))
   \<and> (\<not> Record (cells st (options fa))
        \<longrightarrow> filter is_recorder_call (fst (step_loop e st fa hasWork inst stepCount recorder)) = [])"
proof (intro conjI impI)
  show "Record (cells (snd (NewFlowAction gen fp rec opts st0))
       (options (fst (NewFlowAction gen fp rec opts st0))))
     \<longleftrightarrow> rec \<noteq> None \<and> (case opts of None \<Rightarrow> True | Some p \<Rightarrow> Record (cells st0 p))"
    by (cases opts) (simp_all add: NewFlowAction_def alloc_def Let_def)
next
  assume "Record (cells st (options fa))"
    and "snd (step_loop e st fa hasWork inst stepCount recorder) = Inr x"
  then show "steps_recorded (fst (step_loop e st fa hasWork inst stepCount recorder))"
    by (rule step_loop_recorded)
next
  assume "Record (cells st (options fa))"
  then show "\<exists>suffix. steps_recorded
      (fst (step_loop e st fa hasWork inst stepCount recorder) @ suffix)"
    by (rule step_loop_recorded_prefix)
next
  assume "\<not> Record (cells st (options fa))"
  then show "filter is_recorder_call (fst (step_loop e st fa hasWork inst stepCount recorder)) = []"
    by (rule step_loop_unrecorded)
qed

theorem conditional_checkpointing_witness:
  "Record (cells (demo_store 10 True) (options demo_action))
   \<and> step_loop demo_env (demo_store 10 True) demo_action True (''i'', [Work, Work], []) 0 (Some 0) =
       ([EvHandleResult 100 (ReplyData ()) None, EvDoStep,
         EvRecordSnapshot (''i'', [Work], []), EvRecordStep (''i'', [Work], []),
         EvHandleResult 100 (ReplyData ()) None, EvDoStep,
         EvRecordSnapshot (''i'', [], []), EvRecordStep (''i'', [], [])],
        Inr ((''i'', [], []), Some 4))
   \<and> steps_recorded (fst (step_loop demo_env (demo_store 10 True) demo_action True
         (''i'', [Work, Work], []) 0 (Some 0)))
   \<and> \<not> Record (cells (demo_store 10 False) (options demo_action))
   \<and> filter is_recorder_call (fst (step_loop demo_env (demo_store 10 False) demo_action True
         (''i'', [Work, Work], []) 0 (Some 0))) = []"
proof -
  have loop: "step_loop demo_env (demo_store 10 True) demo_action True (''i'', [Work, Work], []) 0
       (Some 0) =
       ([EvHandleResult 100 (ReplyData ()) None, EvDoStep,
         EvRecordSnapshot (''i'', [Work], []), EvRecordStep (''i'', [Work], []),
         EvHandleResult 100 (ReplyData ()) None, EvDoStep,
         EvRecordSnapshot (''i'', [], []), EvRecordStep (''i'', [], [])],
        Inr ((''i'', [], []), Some 4))"
    by (simp add: demo_simps step_loop.simps)
  have on: "Record (cells (demo_store 10 True) (options demo_action))"
    and off: "\<not> Record (cells (demo_store 10 False) (options demo_action))"
    by (simp_all add: demo_store_def demo_action_def)
  have "steps_recorded (fst (step_loop demo_env (demo_store 10 True) demo_action True
         (''i'', [Work, Work], []) 0 (Some 0)))"
    using conditional_checkpointing [where st = "demo_store 10 True" and fa = demo_action
        and e = demo_env and hasWork = True and inst = "(''i'', [Work, Work], [])"
        and stepCount = 0 and recorder = "Some 0" and x = "((''i'', [], []), Some 4)",
        THEN conjunct2, THEN conjunct1] on loop
    by simp
  moreover have "filter is_recorder_call (fst (step_loop demo_env (demo_store 10 False) demo_action
         True (''i'', [Work, Work], []) 0 (Some 0))) = []"
    using conditional_checkpointing [where st = "demo_store 10 False" and fa = demo_action
        and e = demo_env and hasWork = True and inst = "(''i'', [Work, Work], [])"
        and stepCount = 0 and recorder = "Some 0",
        THEN conjunct2, THEN conjunct2, THEN conjunct2] off
    by simp
  ultimately show ?thesis
    using loop on off by simp
qed

text \<open>
  C6. Constructing a FlowAction with a non-positive \<^verbatim>\<open>MaxStepCount\<close>, or with no options at
  all (\<^verbatim>\<open>nil\<close>), yields an effective step bound of exactly 65535: that is the
  \<^verbatim>\<open>MaxStepCount\<close> of the options the new action points to.
\<close>

theorem default_step_bound:
  assumes "case opts of None \<Rightarrow> True | Some p \<Rightarrow> MaxStepCount (cells st p) < 1"
  shows "MaxStepCount (cells (snd (NewFlowAction gen fp rec opts st))
           (options (fst (NewFlowAction gen fp rec opts st)))) = 65535"
  using assms by (cases opts) (simp_all add: NewFlowAction_def alloc_def Let_def)

theorem default_step_bound_witness:
  "MaxStepCount (cells (snd (NewFlowAction (0::nat) (\<lambda>u. (None :: unit option)) (None :: unit option)
       (Some 0) \<lparr>cells = (\<lambda>a. \<lparr>MaxStepCount = - 3, Record = True\<rparr>), next_free = 1\<rparr>))
     (options (fst (NewFlowAction (0::nat) (\<lambda>u. (None :: unit option)) (None :: unit option)
       (Some 0) \<lparr>cells = (\<lambda>a. \<lparr>MaxStepCount = - 3, Record = True\<rparr>), next_free = 1\<rparr>)))) = 65535
   \<and> MaxStepCount (cells (snd (NewFlowAction (0::nat) (\<lambda>u. (None :: unit option)) (None :: unit option)
       None \<lparr>cells = (\<lambda>a. \<lparr>MaxStepCount = 7, Record = True\<rparr>), next_free = 1\<rparr>))
     (options (fst (NewFlowAction (0::nat) (\<lambda>u. (None :: unit option)) (None :: unit option)
       None \<lparr>cells = (\<lambda>a. \<lparr>MaxStepCount = 7, Record = True\<rparr>), next_free = 1\<rparr>)))) = 65535"
  using default_step_bound [where opts = "Some 0" and gen = "0::nat"
      and fp = "\<lambda>u. (None :: unit option)" and rec = "None :: unit option"
      and st = "\<lparr>cells = (\<lambda>a. \<lparr>MaxStepCount = - 3, Record = True\<rparr>), next_free = 1\<rparr>"]
    default_step_bound [where opts = None and gen = "0::nat"
      and fp = "\<lambda>u. (None :: unit option)" and rec = "None :: unit option"
      and st = "\<lparr>cells = (\<lambda>a. \<lparr>MaxStepCount = 7, Record = True\<rparr>), next_free = 1\<rparr>"]
  by simp

text \<open>
  C7. When \<^verbatim>\<open>Run\<close> is given run options and starts the goroutine, and the loop exits
  without a panic, then what follows the loop's own trace is, with \<^verbatim>\<open>ReturnID\<close> set, exactly
  one \<^verbatim>\<open>HandleResult(200, &IDResponse{ID: instance.ID()}, nil)\<close> and then \<^verbatim>\<open>Done\<close>; with
  \<^verbatim>\<open>ReturnID\<close> unset it is \<^verbatim>\<open>Done\<close> alone.
\<close>

theorem id_result_once:
  assumes "Run e fa ctx uri (RunOptionsPtr (Some ro)) = ReturnNil c"
    and "step_loop e st (c_fa c) True (c_instance c) 0 (stateRecorder (c_fa c)) = (evs, Inr (inst, r))"
  shows "invocation_trace e st fa ctx uri (RunOptionsPtr (Some ro)) =
     evs @ (if ReturnID ro
            then [EvHandleResult 200 (IDResponsePtr \<lparr>ID = InstanceID e inst\<rparr>) None] else [])
         @ [EvDone]"
  using assms Run_closure(3) [OF assms(1)]
  by (simp add: invocation_trace_def goroutine_def task_body_def)


theorem id_result_once_witness:
  "Run demo_env demo_action None ''order-flow''
     (RunOptionsPtr (Some \<lparr>Op = AoStart, ReturnID = True, InitialState = None, ExecOptions = None\<rparr>)) =
     ReturnNil \<lparr>c_fa = demo_action\<lparr>idGenerator := 1\<rparr>,
        c_ao = Some \<lparr>Op = AoStart, ReturnID = True, InitialState = None, ExecOptions = None\<rparr>,
        c_instance = (''i'', [Work, Work, Work], [])\<rparr>
   \<and> invocation_trace demo_env (demo_store 2 False) demo_action None ''order-flow''
     (RunOptionsPtr (Some \<lparr>Op = AoStart, ReturnID = True, InitialState = None, ExecOptions = None\<rparr>)) =
     [EvHandleResult 100 (ReplyData ()) None, EvDoStep,
      EvHandleResult 100 (ReplyData ()) None, EvDoStep,
      EvHandleResult 200 (IDResponsePtr \<lparr>ID = ''i''\<rparr>) None, EvDone]"
proof -
  let ?ro = "\<lparr>Op = AoStart, ReturnID = True, InitialState = (None :: demo_instance option),
               ExecOptions = (None :: unit option)\<rparr>"
  let ?c = "\<lparr>c_fa = demo_action\<lparr>idGenerator := 1\<rparr>, c_ao = Some ?ro,
             c_instance = (''i'', [Work, Work, Work], [])\<rparr>"
  have run: "Run demo_env demo_action None ''order-flow'' (RunOptionsPtr (Some ?ro)) = ReturnNil ?c"
    by (simp add: demo_simps)
  have loop: "step_loop demo_env (demo_store 2 False) (c_fa ?c) True (c_instance ?c) 0
                (stateRecorder (c_fa ?c)) =
              ([EvHandleResult 100 (ReplyData ()) None, EvDoStep,
                EvHandleResult 100 (ReplyData ()) None, EvDoStep],
               Inr ((''i'', [Work], []), Some 0))"
    by (simp add: demo_simps step_loop.simps)
  show ?thesis
    using run id_result_once [OF run loop] by (simp add: demo_env_def)
qed

text \<open>
  C8. The trigger attributes read from the context are applied with \<^verbatim>\<open>Instance.Start\<close> when
  the operation is \<^verbatim>\<open>AoStart\<close> (to the new instance, once the flow is found) and with
  \<^verbatim>\<open>Instance.UpdateAttrs\<close> when it is \<^verbatim>\<open>AoResume\<close> (to the given instance) or \<^verbatim>\<open>AoRestart\<close> (to
  the given instance after \<^verbatim>\<open>Restart\<close>), in each case after the exec options, if any. In the
  example \<^verbatim>\<open>Start\<close> replaces the attributes and \<^verbatim>\<open>UpdateAttrs\<close> appends to them.
\<close>

theorem trigger_attributes_applied:
  "(flowProvider fa uri = Some flow \<longrightarrow>
      (\<exists>c. Run e fa ctx uri NotRunOptions = ReturnNil c
         \<and> c_instance c = SetReplyHandler e (Start e (fst (FromContext ctx))
             (NewFlowInstance e (fst (NextAsString e (idGenerator fa))) uri flow))))
   \<and> (Op ro = AoStart \<longrightarrow> flowProvider fa uri = Some flow \<longrightarrow>
      (\<exists>c. Run e fa ctx uri (RunOptionsPtr (Some ro)) = ReturnNil c
         \<and> c_instance c = SetReplyHandler e (Start e (fst (FromContext ctx))
             (case ExecOptions ro of
                None \<Rightarrow> NewFlowInstance e (fst (NextAsString e (idGenerator fa))) uri flow
              | Some x \<Rightarrow> applyExecOptions e x
                  (NewFlowInstance e (fst (NextAsString e (idGenerator fa))) uri flow)))))
   \<and> (Op ro = AoResume \<longrightarrow> InitialState ro = Some inst \<longrightarrow>
      (\<exists>c. Run e fa ctx uri (RunOptionsPtr (Some ro)) = ReturnNil c
         \<and> c_instance c = SetReplyHandler e (UpdateAttrs e (fst (FromContext ctx))
             (case ExecOptions ro of
                None \<Rightarrow> inst
              | Some x \<Rightarrow> applyExecOptions e x inst))))
   \<and> (Op ro = AoRestart \<longrightarrow> InitialState ro = Some inst \<longrightarrow>
      (\<exists>c. Run e fa ctx uri (RunOptionsPtr (Some ro)) = ReturnNil c
         \<and> c_instance c = SetReplyHandler e (UpdateAttrs e (fst (FromContext ctx))
             (case ExecOptions ro of
                None \<Rightarrow> Restart e (fst (NextAsString e (idGenerator fa))) (flowProvider fa) inst
              | Some x \<Rightarrow> applyExecOptions e x
                  (Restart e (fst (NextAsString e (idGenerator fa))) (flowProvider fa) inst)))))"
  by (simp add: Run_NotRunOptions Run_Start Run_Resume Run_Restart)


theorem trigger_attributes_applied_witness:
  "(\<exists>c. Run demo_env demo_action (Some [''k'']) ''order-flow'' NotRunOptions = ReturnNil c
       \<and> c_instance c = (''i'', [Work, Work, Work], [''k'']))
   \<and> (\<exists>c. Run demo_env demo_action (Some [''k'']) ''order-flow''
         (RunOptionsPtr (Some \<lparr>Op = AoStart, ReturnID = False, InitialState = None,
            ExecOptions = Some ()\<rparr>)) = ReturnNil c
       \<and> c_instance c = (''i'', [Work, Work, Work], [''k'']))
   \<and> (\<exists>c. Run demo_env demo_action (Some [''k'']) ''order-flow''
         (RunOptionsPtr (Some \<lparr>Op = AoResume, ReturnID = False,
            InitialState = Some (''a'', [Work], [''old'']), ExecOptions = None\<rparr>)) = ReturnNil c
       \<and> c_instance c = (''a'', [Work], [''old'', ''k'']))
   \<and> (\<exists>c. Run demo_env demo_action (Some [''k'']) ''order-flow''
         (RunOptionsPtr (Some \<lparr>Op = AoRestart, ReturnID = False,
            InitialState = Some (''a'', [Work], [''old'']), ExecOptions = None\<rparr>)) = ReturnNil c
       \<and> c_instance c = (''i'', [Work], [''old'', ''k'']))"
proof -
  have flow: "flowProvider demo_action ''order-flow'' = Some [Work, Work, Work]"
    by (simp add: demo_action_def demo_provider_def)
  note start = trigger_attributes_applied [where e = demo_env and fa = demo_action
      and ctx = "Some [''k'']" and uri = "''order-flow''" and flow = "[Work, Work, Work]"
      and ro = "\<lparr>Op = AoStart, ReturnID = False, InitialState = None, ExecOptions = Some ()\<rparr>"
      and inst = "(''a'', [Work], [''old''])"]
  note resume = trigger_attributes_applied [where e = demo_env and fa = demo_action
      and ctx = "Some [''k'']" and uri = "''order-flow''" and flow = "[Work, Work, Work]"
      and ro = "\<lparr>Op = AoResume, ReturnID = False, InitialState = Some (''a'', [Work], [''old'']),
                 ExecOptions = None\<rparr>"
      and inst = "(''a'', [Work], [''old''])"]
  note restart = trigger_attributes_applied [where e = demo_env and fa = demo_action
      and ctx = "Some [''k'']" and uri = "''order-flow''" and flow = "[Work, Work, Work]"
      and ro = "\<lparr>Op = AoRestart, ReturnID = False, InitialState = Some (''a'', [Work], [''old'']),
                 ExecOptions = None\<rparr>"
      and inst = "(''a'', [Work], [''old''])"]
  have "\<exists>c. Run demo_env demo_action (Some [''k'']) ''order-flow''
          (NotRunOptions :: (demo_instance, unit) options_arg) = ReturnNil c
       \<and> c_instance c = (''i'', [Work, Work, Work], [''k''])"
    using start [THEN conjunct1] flow
    by (simp add: demo_env_def demo_action_def FromContext_def)
  moreover have "\<exists>c. Run demo_env demo_action (Some [''k'']) ''order-flow''
         (RunOptionsPtr (Some \<lparr>Op = AoStart, ReturnID = False, InitialState = None,
            ExecOptions = Some ()\<rparr>)) = ReturnNil c
       \<and> c_instance c = (''i'', [Work, Work, Work], [''k''])"
    using start [THEN conjunct2, THEN conjunct1] flow
    by (simp add: demo_env_def demo_action_def FromContext_def)
  moreover have "\<exists>c. Run demo_env demo_action (Some [''k'']) ''order-flow''
         (RunOptionsPtr (Some \<lparr>Op = AoResume, ReturnID = False,
            InitialState = Some (''a'', [Work], [''old'']), ExecOptions = None\<rparr>)) = ReturnNil c
       \<and> c_instance c = (''a'', [Work], [''old'', ''k''])"
    using resume [THEN conjunct2, THEN conjunct2, THEN conjunct1]
    by (simp add: demo_env_def demo_action_def FromContext_def)
  moreover have "\<exists>c. Run demo_env demo_action (Some [''k'']) ''order-flow''
         (RunOptionsPtr (Some \<lparr>Op = AoRestart, ReturnID = False,
            InitialState = Some (''a'', [Work], [''old'']), ExecOptions = None\<rparr>)) = ReturnNil c
       \<and> c_instance c = (''i'', [Work], [''old'', ''k''])"
    using restart [THEN conjunct2, THEN conjunct2, THEN conjunct2]
    by (simp add: demo_env_def demo_action_def FromContext_def)
  ultimately show ?thesis
    by blast
qed

text \<open>
  C9. When the options argument is not a \<^verbatim>\<open>*RunOptions\<close>, the operation is \<^verbatim>\<open>AoStart\<close>; when the
  URI resolves, \<^verbatim>\<open>Run\<close> returns \<^verbatim>\<open>nil\<close> and starts the goroutine with \<^verbatim>\<open>ao\<close> \<^verbatim>\<open>nil\<close>. That
  goroutine never ends without a panic: if its loop exits normally, the read of
  \<^verbatim>\<open>ao.ReturnID\<close> is a nil dereference.
\<close>

theorem nil_options_panic:
  assumes "flowProvider fa uri = Some flow"
  shows "\<exists>c. Run e fa ctx uri NotRunOptions = ReturnNil c \<and> c_ao c = None
    \<and> (\<exists>p. snd (goroutine e st c) = Some p)
    \<and> (\<forall>x. snd (step_loop e st (c_fa c) True (c_instance c) 0 (stateRecorder (c_fa c))) = Inr x
          \<longrightarrow> snd (goroutine e st c) = Some NilDereference)"
  using assms
  by (auto simp add: Run_NotRunOptions goroutine_def task_body_def
      split: prod.splits sum.splits)

theorem nil_options_panic_witness:
  "flowProvider demo_action ''order-flow'' = Some [Work, Work, Work]
   \<and> (\<exists>c. Run demo_env demo_action None ''order-flow'' NotRunOptions = ReturnNil c
        \<and> c_ao c = None
        \<and> goroutine demo_env (demo_store 10 False) c =
            ([EvHandleResult 100 (ReplyData ()) None, EvDoStep,
              EvHandleResult 100 (ReplyData ()) None, EvDoStep,
              EvHandleResult 100 (ReplyData ()) None, EvDoStep, EvDone],
             Some NilDereference))"
proof -
  have flow: "flowProvider demo_action ''order-flow'' = Some [Work, Work, Work]"
    by (simp add: demo_action_def demo_provider_def)
  obtain c :: "(demo_instance, demo_step list, nat, nat, unit) closure" where
    run: "Run demo_env demo_action None ''order-flow'' NotRunOptions = ReturnNil c"
    and ao: "c_ao c = None"
    using nil_options_panic [OF flow, where e = demo_env and ctx = None
        and st = "demo_store 10 False"]
    by blast
  have "c = \<lparr>c_fa = demo_action\<lparr>idGenerator := 1\<rparr>, c_ao = None,
             c_instance = (''i'', [Work, Work, Work], [])\<rparr>"
    using run by (simp add: demo_simps)
  then have "goroutine demo_env (demo_store 10 False) c =
            ([EvHandleResult 100 (ReplyData ()) None, EvDoStep,
              EvHandleResult 100 (ReplyData ()) None, EvDoStep,
              EvHandleResult 100 (ReplyData ()) None, EvDoStep, EvDone],
             Some NilDereference)"
    by (simp add: demo_simps step_loop.simps)
  with flow run ao show ?thesis
    by blast
qed

text \<open>
  C10. \<^verbatim>\<open>NewFlowAction\<close> with caller-supplied options keeps the caller's pointer (the action's
  \<open>options\<close> is the caller's address) and writes through it: afterwards the caller's object
  has \<^verbatim>\<open>MaxStepCount\<close> 65535 if it was below 1, and \<^verbatim>\<open>Record\<close> false if no recorder was
  supplied (else both as before); no other object of the store changes, nothing is
  allocated, and the provider, the recorder and the generator are stored as given.
\<close>

theorem options_mutated_in_place:
  assumes "NewFlowAction gen fp rec (Some p) st = (fa, st')"
  shows "options fa = p
    \<and> cells st' p =
        \<lparr>MaxStepCount = (if MaxStepCount (cells st p) < 1 then 65535 else MaxStepCount (cells st p)),
         Record = (rec \<noteq> None \<and> Record (cells st p))\<rparr>
    \<and> (\<forall>q. q \<noteq> p \<longrightarrow> cells st' q = cells st q)
    \<and> next_free st' = next_free st
    \<and> flowProvider fa = fp \<and> stateRecorder fa = rec \<and> idGenerator fa = gen"
  using assms by (auto simp add: NewFlowAction_def Let_def)

theorem options_mutated_in_place_witness:
  "NewFlowAction (0::nat) demo_provider (None :: nat option) (Some 0) (demo_store 0 True) =
     (\<lparr>stateRecorder = None, flowProvider = demo_provider, idGenerator = 0, options = 0\<rparr>,
      \<lparr>cells = (cells (demo_store 0 True))(0 := \<lparr>MaxStepCount = 65535, Record = False\<rparr>),
       next_free = 1\<rparr>)
   \<and> cells (\<lparr>cells = (cells (demo_store 0 True))(0 := \<lparr>MaxStepCount = 65535, Record = False\<rparr>),
       next_free = 1\<rparr>) 0 = \<lparr>MaxStepCount = 65535, Record = False\<rparr>
   \<and> cells (\<lparr>cells = (cells (demo_store 0 True))(0 := \<lparr>MaxStepCount = 65535, Record = False\<rparr>),
       next_free = 1\<rparr>) 5 = cells (demo_store 0 True) 5"
proof -
  have new: "NewFlowAction (0::nat) demo_provider (None :: nat option) (Some 0) (demo_store 0 True) =
     (\<lparr>stateRecorder = None, flowProvider = demo_provider, idGenerator = 0, options = 0\<rparr>,
      \<lparr>cells = (cells (demo_store 0 True))(0 := \<lparr>MaxStepCount = 65535, Record = False\<rparr>),
       next_free = 1\<rparr>)"
    by (simp add: NewFlowAction_def Let_def demo_store_def)
  show ?thesis
    using new options_mutated_in_place [OF new] by (simp add: demo_store_def)
qed

end
